theory Spec2Isabelle
  imports Complex_Main
begin

section \<open>Tofts and extended Tofts tissue models (module osipi.tissue)\<close>

text \<open>
  The module computes tissue concentration curves from an arterial input curve.  The
  arrays of the source are one-dimensional float64 arrays; they are modelled as lists of
  real numbers, so rounding, NaN and the infinities of float64 are outside the model.
  The one float effect that changes the control flow is written out: the unit conversion
  \<open>Ktrans / 60\<close> underflows to zero for a positive \<open>Ktrans\<close> that is small enough.
  Every exception the source can raise is a value \<open>Inl e\<close>; the warning of the grid check
  is the first component of the outcome.

  The routines the module calls but does not define:
  \<^item> \<open>exp_conv\<close> of the sibling module \<open>_convolution\<close>: a parameter \<open>E\<close> of the models,
    \<open>E Tc t ca = None\<close> when the call raises;
  \<^item> the quadratic spline behind \<open>interp1d(kind="quadratic")\<close>: a parameter \<open>S\<close>, where
    \<open>S x y q\<close> is the value at \<open>q\<close> of the spline through the points \<open>(x, y)\<close>; the
    checks \<open>interp1d\<close> makes before it builds the spline, and its fill value outside the
    data range, are written out;
  \<^item> \<open>np.diff\<close>, \<open>np.allclose\<close>, \<open>np.convolve\<close>, \<open>np.linspace\<close>, \<open>np.min\<close> and the
    linear \<open>interp1d\<close>: defined below as numpy and scipy document them.
  \<open>interp1d\<close> sorts its abscissae first; the grids here are strictly increasing, where
  the sort changes nothing, and it is not modelled.
\<close>

subsection \<open>Errors\<close>

datatype site = Site_kep | Site_Tc

datatype error =
    IndexError
  | ValueError
  | OverflowError
  | ZeroDivisionError site
  | ExpConvError

definition bind :: "error + 'a \<Rightarrow> ('a \<Rightarrow> error + 'b) \<Rightarrow> error + 'b" where
  "bind m f = (case m of Inl e \<Rightarrow> Inl e | Inr x \<Rightarrow> f x)"

text \<open>\<open>a / b\<close> on Python floats raises ZeroDivisionError when \<open>b\<close> is zero; the site
  records which division of the source it is.\<close>

definition py_div :: "site \<Rightarrow> real \<Rightarrow> real \<Rightarrow> error + real" where
  "py_div s a b = (if b = 0 then Inl (ZeroDivisionError s) else Inr (a / b))"

text \<open>Half of the least positive float, \<open>2 ^ (- 1075)\<close>.\<close>

definition half_min_float :: real where
  "half_min_float = 1 / 2 ^ 1075"

text \<open>\<open>a / b\<close> on Python floats for a nonzero divisor: a quotient of magnitude at most
  \<open>half_min_float\<close> rounds to \<open>0.0\<close>.  The rounding of larger quotients is not
  modelled.\<close>

definition float_div :: "real \<Rightarrow> real \<Rightarrow> real" where
  "float_div a b = (if \<bar>a / b\<bar> \<le> half_min_float then 0 else a / b)"

text \<open>\<open>xs[i]\<close> for an index \<open>i \<ge> 0\<close>.\<close>

definition getitem :: "real list \<Rightarrow> nat \<Rightarrow> error + real" where
  "getitem xs i = (if i < length xs then Inr (xs ! i) else Inl IndexError)"

text \<open>\<open>int(x)\<close> truncates towards zero.\<close>

definition py_int :: "real \<Rightarrow> int" where
  "py_int x = (if 0 \<le> x then \<lfloor>x\<rfloor> else \<lceil>x\<rceil>)"

subsection \<open>numpy\<close>

text \<open>\<open>np.diff(t)\<close> is \<open>t[1:] - t[:-1]\<close>.\<close>

definition np_diff :: "real list \<Rightarrow> real list" where
  "np_diff t = map2 (\<lambda>a b. b - a) t (tl t)"

text \<open>\<open>np.allclose(a, b)\<close> for an array \<open>a\<close> and a scalar \<open>b\<close>, with the default
  tolerances \<open>rtol = 1e-05\<close> and \<open>atol = 1e-08\<close>.\<close>

definition np_allclose :: "real list \<Rightarrow> real \<Rightarrow> bool" where
  "np_allclose a b = list_all (\<lambda>x. \<bar>x - b\<bar> \<le> 1 / 10 ^ 8 + 1 / 10 ^ 5 * \<bar>b\<bar>) a"

text \<open>\<open>np.min(a)\<close> raises ValueError on an empty array.\<close>

definition np_min :: "real list \<Rightarrow> error + real" where
  "np_min a = (if a = [] then Inl ValueError else Inr (Min (set a)))"

text \<open>\<open>a + b\<close> on one-dimensional arrays: elementwise, an array of length one is
  broadcast, any other pair of different lengths raises ValueError.\<close>

definition np_add :: "real list \<Rightarrow> real list \<Rightarrow> error + real list" where
  "np_add a b =
     (if length a = length b then Inr (map2 (+) a b)
      else if length a = 1 then Inr (map (\<lambda>y. hd a + y) b)
      else if length b = 1 then Inr (map (\<lambda>x. x + hd b) a)
      else Inl ValueError)"

text \<open>\<open>np.convolve(a, v)\<close> in its default mode \<open>full\<close>: entry \<open>k\<close> is the sum of
  \<open>a[i] * v[k - i]\<close>, for \<open>k\<close> below \<open>len(a) + len(v) - 1\<close>; an empty argument raises
  ValueError.\<close>

definition np_convolve :: "real list \<Rightarrow> real list \<Rightarrow> error + real list" where
  "np_convolve a v =
     (if a = [] \<or> v = [] then Inl ValueError
      else Inr (map (\<lambda>k. \<Sum>i\<leftarrow>[0..<length a].
                              if i \<le> k \<and> k - i < length v then a ! i * v ! (k - i) else 0)
                    [0..<length a + length v - 1]))"

text \<open>\<open>np.linspace(start, stop, num)\<close>: \<open>num\<close> samples, the last one set to \<open>stop\<close>;
  a negative \<open>num\<close> raises ValueError.\<close>

definition np_linspace :: "real \<Rightarrow> real \<Rightarrow> int \<Rightarrow> error + real list" where
  "np_linspace start stop num =
     (if num < 0 then Inl ValueError
      else let n = nat num;
               delta = stop - start;
               y = (if 1 < n then map (\<lambda>i. real i * (delta / real (n - 1))) [0..<n]
                    else map (\<lambda>i. real i * delta) [0..<n]);
               y = map (\<lambda>v. v + start) y
           in Inr (if 1 < n then y[n - 1 := stop] else y))"

subsection \<open>scipy.interpolate.interp1d\<close>

text \<open>Piecewise linear interpolation inside the data range, as \<open>np.interp\<close> computes it:
  on the segment that holds \<open>q\<close>, \<open>slope * (q - x_lo) + y_lo\<close>.\<close>

fun lin_interp :: "real list \<Rightarrow> real list \<Rightarrow> real \<Rightarrow> real" where
  "lin_interp (x0 # x1 # xs) (y0 # y1 # ys) q =
     (if q \<le> x1 \<or> xs = [] then (y1 - y0) / (x1 - x0) * (q - x0) + y0
      else lin_interp (x1 # xs) (y1 # ys) q)"
| "lin_interp xs (y0 # ys) q = y0"
| "lin_interp xs [] q = 0"

text \<open>\<open>interp1d(x, y, kind="linear", bounds_error=False, fill_value=0)\<close>: ValueError
  when the lengths differ or there is no point; the interpolant is 0 outside
  \<open>[x[0], x[-1]]\<close>.\<close>

definition interp1d_linear :: "real list \<Rightarrow> real list \<Rightarrow> error + (real \<Rightarrow> real)" where
  "interp1d_linear x y =
     (if length x \<noteq> length y then Inl ValueError
      else if length x < 1 then Inl ValueError
      else Inr (\<lambda>q. if q < hd x \<or> last x < q then 0 else lin_interp x y q))"

text \<open>\<open>interp1d(x, y, kind="quadratic", bounds_error=False, fill_value=0)\<close>: a spline of
  order 2 needs 3 points with distinct abscissae, ValueError otherwise.\<close>

definition interp1d_quadratic ::
  "(real list \<Rightarrow> real list \<Rightarrow> real \<Rightarrow> real) \<Rightarrow> real list \<Rightarrow> real list \<Rightarrow> error + (real \<Rightarrow> real)" where
  "interp1d_quadratic S x y =
     (if length x \<noteq> length y then Inl ValueError
      else if \<not> distinct x then Inl ValueError
      else if length x < 3 then Inl ValueError
      else Inr (\<lambda>q. if q < hd x \<or> last x < q then 0 else S x y q))"

subsection \<open>The blocks the two models share\<close>

text \<open>The grid check \<open>np.allclose(np.diff(t), np.diff(t)[0])\<close> (lines 77, 122, 242 and
  289): \<open>np.diff(t)[0]\<close> raises IndexError when \<open>t\<close> has fewer than two entries.\<close>

definition uniform_spacing :: "real list \<Rightarrow> error + bool" where
  "uniform_spacing t = bind (getitem (np_diff t) 0) (\<lambda>d0. Inr (np_allclose (np_diff t) d0))"

text \<open>The arterial delay shift (lines 92-100, 111-119, 257-265 and 278-286, the same
  text four times): \<open>ca = (t > Ta) * f(t - Ta)\<close> with \<open>f\<close> the linear \<open>interp1d\<close> of
  \<open>ca\<close> over \<open>t\<close>, when \<open>Ta\<close> is not zero.\<close>

definition shift_aif :: "real list \<Rightarrow> real list \<Rightarrow> real \<Rightarrow> error + real list" where
  "shift_aif t ca Ta =
     (if Ta \<noteq> 0 then
        bind (interp1d_linear t ca) (\<lambda>f.
        Inr (map2 (*) (map (\<lambda>x. of_bool (Ta < x)) t) (map f (map (\<lambda>x. x - Ta) t))))
      else Inr ca)"

text \<open>\<open>int(a / b)\<close> on numpy floats: a zero divisor gives an infinity or NaN, which
  \<open>int\<close> refuses with OverflowError or ValueError.\<close>

definition int_of_quotient :: "real \<Rightarrow> real \<Rightarrow> error + int" where
  "int_of_quotient a b =
     (if b = 0 then (if a = 0 then Inl ValueError else Inl OverflowError)
      else Inr (py_int (a / b)))"

text \<open>The resampled grid (lines 131-132 and 298-299):
  \<open>dt = np.min(np.diff(t))\<close>,
  \<open>t_resampled = np.linspace(t[0], t[-1], int((t[-1] - t[0]) / dt))\<close>.
  Where \<open>np.min\<close> returns, \<open>t\<close> has two entries or more, so \<open>t[0]\<close> and \<open>t[-1]\<close>
  exist.\<close>

definition resample_grid :: "real list \<Rightarrow> error + real list" where
  "resample_grid t =
     bind (np_min (np_diff t)) (\<lambda>dt.
     bind (int_of_quotient (last t - hd t) dt) (\<lambda>num.
     np_linspace (hd t) (last t) num))"

text \<open>The call \<open>exp_conv(Tc, t, ca)\<close>; whatever it raises is passed on.\<close>

definition exp_conv ::
  "(real \<Rightarrow> real list \<Rightarrow> real list \<Rightarrow> real list option) \<Rightarrow>
   real \<Rightarrow> real list \<Rightarrow> real list \<Rightarrow> error + real list" where
  "exp_conv E Tc t ca = (case E Tc t ca of None \<Rightarrow> Inl ExpConvError | Some r \<Rightarrow> Inr r)"

text \<open>The resampling branch of \<open>tofts\<close> (lines 130-164): both series are interpolated
  onto the resampled grid, convolved, truncated and scaled by \<open>t_resampled[1]\<close>, and the
  result is interpolated back onto \<open>t\<close>.\<close>

definition conv_resampled ::
  "(real list \<Rightarrow> real list \<Rightarrow> real \<Rightarrow> real) \<Rightarrow> real list \<Rightarrow> real list \<Rightarrow> real list \<Rightarrow>
   error + real list" where
  "conv_resampled S t ca imp =
     bind (resample_grid t) (\<lambda>t_resampled.
     bind (interp1d_quadratic S t ca) (\<lambda>ca_func.
     bind (interp1d_quadratic S t imp) (\<lambda>imp_func.
     let ca_resampled = map ca_func t_resampled;
         imp_resampled = map imp_func t_resampled in
     bind (np_convolve ca_resampled imp_resampled) (\<lambda>convolution.
     bind (getitem t_resampled 1) (\<lambda>t1.
     let ct_resampled = map (\<lambda>c. c * t1) (take (length t_resampled) convolution) in
     bind (interp1d_quadratic S t_resampled ct_resampled) (\<lambda>ct_func.
     Inr (map ct_func t)))))))"

text \<open>The resampling branch of \<open>extended_tofts\<close> (lines 297-333): as above, with
  \<open>vp * ca_resampled\<close> added before the result is interpolated back.\<close>

definition conv_resampled_ext ::
  "(real list \<Rightarrow> real list \<Rightarrow> real \<Rightarrow> real) \<Rightarrow> real \<Rightarrow> real list \<Rightarrow> real list \<Rightarrow> real list \<Rightarrow>
   error + real list" where
  "conv_resampled_ext S vp t ca imp =
     bind (resample_grid t) (\<lambda>t_resampled.
     bind (interp1d_quadratic S t ca) (\<lambda>ca_func.
     bind (interp1d_quadratic S t imp) (\<lambda>imp_func.
     let ca_resampled = map ca_func t_resampled;
         imp_resampled = map imp_func t_resampled in
     bind (np_convolve ca_resampled imp_resampled) (\<lambda>convolution.
     bind (getitem t_resampled 1) (\<lambda>t1.
     bind (np_add (map (\<lambda>c. c * t1) (take (length t_resampled) convolution))
                  (map ((*) vp) ca_resampled)) (\<lambda>ct_resampled.
     bind (interp1d_quadratic S t_resampled ct_resampled) (\<lambda>ct_func.
     Inr (map ct_func t))))))))"

subsection \<open>tofts (lines 77-166)\<close>

text \<open>The outcome is the pair of the warning flag (lines 77-81) and the value returned
  or the exception raised.  Line 122 evaluates the grid check a second time, on the same
  \<open>t\<close>; the model reuses its value.  The guard of line 83 reads \<open>Ktrans\<close> as given; line
  88 then replaces it by the float quotient \<open>Ktrans / 60\<close>.\<close>

definition tofts ::
  "(real \<Rightarrow> real list \<Rightarrow> real list \<Rightarrow> real list option) \<Rightarrow>
   (real list \<Rightarrow> real list \<Rightarrow> real \<Rightarrow> real) \<Rightarrow>
   real list \<Rightarrow> real list \<Rightarrow> real \<Rightarrow> real \<Rightarrow> real \<Rightarrow> string \<Rightarrow> bool \<times> (error + real list)" where
  "tofts E S t ca Ktrans ve Ta discretization_method =
     (case uniform_spacing t of
        Inl e \<Rightarrow> (False, Inl e)
      | Inr uniform \<Rightarrow>
          (\<not> uniform,
           if Ktrans \<le> 0 \<or> ve \<le> 0 then Inr (map ((*) 0) ca)
           else
             let Ktrans = float_div Ktrans 60 in
             if discretization_method = ''exp'' then
               bind (shift_aif t ca Ta) (\<lambda>ca.
               bind (py_div Site_Tc ve Ktrans) (\<lambda>Tc.
               bind (exp_conv E Tc t ca) (\<lambda>ec.
               Inr (map ((*) ve) ec))))
             else
               bind (py_div Site_kep Ktrans ve) (\<lambda>kep.
               let imp = map (\<lambda>x. Ktrans * exp (- 1 * kep * x)) t in
               bind (shift_aif t ca Ta) (\<lambda>ca.
               if uniform then
                 bind (np_convolve ca imp) (\<lambda>convolution.
                 bind (getitem t 1) (\<lambda>t1.
                 Inr (map (\<lambda>c. c * t1) (take (length t) convolution))))
               else conv_resampled S t ca imp))))"

subsection \<open>extended tofts (lines 242-335)\<close>

definition extended_tofts ::
  "(real \<Rightarrow> real list \<Rightarrow> real list \<Rightarrow> real list option) \<Rightarrow>
   (real list \<Rightarrow> real list \<Rightarrow> real \<Rightarrow> real) \<Rightarrow>
   real list \<Rightarrow> real list \<Rightarrow> real \<Rightarrow> real \<Rightarrow> real \<Rightarrow> real \<Rightarrow> string \<Rightarrow> bool \<times> (error + real list)" where
  "extended_tofts E S t ca Ktrans ve vp Ta discretization_method =
     (case uniform_spacing t of
        Inl e \<Rightarrow> (False, Inl e)
      | Inr uniform \<Rightarrow>
          (\<not> uniform,
           if Ktrans \<le> 0 \<or> ve \<le> 0 then Inr (map ((*) vp) ca)
           else
             let Ktrans = float_div Ktrans 60 in
             if discretization_method = ''exp'' then
               bind (shift_aif t ca Ta) (\<lambda>ca.
               bind (py_div Site_Tc ve Ktrans) (\<lambda>Tc.
               bind (exp_conv E Tc t ca) (\<lambda>ec.
               np_add (map ((*) vp) ca) (map ((*) ve) ec))))
             else
               bind (py_div Site_kep Ktrans ve) (\<lambda>kep.
               let imp = map (\<lambda>x. Ktrans * exp (- 1 * kep * x)) t in
               bind (shift_aif t ca Ta) (\<lambda>ca.
               if uniform then
                 bind (np_convolve ca imp) (\<lambda>convolution.
                 bind (getitem t 1) (\<lambda>t1.
                 np_add (map (\<lambda>c. c * t1) (take (length t) convolution)) (map ((*) vp) ca)))
               else conv_resampled_ext S vp t ca imp))))"

section \<open>Definitions in the words of the specification\<close>

text \<open>The linear interpolant of \<open>ca\<close> over \<open>t\<close> that returns 0 for out-of-bounds queries:
  on the segment \<open>[t\<^sub>i, t\<^sub>i\<^sub>+\<^sub>1]\<close> that holds \<open>q\<close> it is the line through the two
  samples; where no segment holds \<open>q\<close> it is 0.\<close>

definition linear_interpolant :: "real list \<Rightarrow> real list \<Rightarrow> real \<Rightarrow> real" where
  "linear_interpolant t ca q =
     (case find (\<lambda>i. t ! i \<le> q \<and> q \<le> t ! Suc i) [0..<length t - 1] of
        None \<Rightarrow> 0
      | Some i \<Rightarrow> ca ! i + (ca ! Suc i - ca ! i) * (q - t ! i) / (t ! Suc i - t ! i))"

text \<open>The shifted series \<open>(t > Ta) * L(t - Ta)\<close>.\<close>

definition delayed_aif :: "real list \<Rightarrow> real list \<Rightarrow> real \<Rightarrow> real list" where
  "delayed_aif t ca Ta = map (\<lambda>x. of_bool (Ta < x) * linear_interpolant t ca (x - Ta)) t"

text \<open>The uniform-grid result in the words of the specification: the discrete convolution
  of the shifted arterial series \<open>ca'\<close> with the impulse response on the grid, truncated
  to the first \<open>N\<close> samples and scaled by the step \<open>dt = t[1] - t[0]\<close>.\<close>

definition conv_scaled_by_step :: "real list \<Rightarrow> real list \<Rightarrow> real \<Rightarrow> real \<Rightarrow> error + real list" where
  "conv_scaled_by_step t ca' Ktrans ve =
     bind (np_convolve ca' (map (\<lambda>x. (Ktrans / 60) * exp (- ((Ktrans / 60) / ve) * x)) t))
       (\<lambda>convolution. Inr (map (\<lambda>c. c * (t ! 1 - t ! 0)) (take (length t) convolution)))"

section \<open>Basic facts about the blocks\<close>

lemma bind_Inr [simp]: "bind (Inr x) f = f x"
  by (simp add: bind_def)

lemma bind_Inl [simp]: "bind (Inl e) f = Inl e"
  by (simp add: bind_def)

lemma bind_eq_Inl: "bind m f = Inl e \<longleftrightarrow> m = Inl e \<or> (\<exists>x. m = Inr x \<and> f x = Inl e)"
  by (cases m) simp_all

lemma bind_eq_Inr: "bind m f = Inr y \<longleftrightarrow> (\<exists>x. m = Inr x \<and> f x = Inr y)"
  by (cases m) simp_all

lemma length_np_diff [simp]: "length (np_diff t) = length t - 1"
  by (simp add: np_diff_def)

lemma uniform_spacing_eq:
  "uniform_spacing t =
     (if length t < 2 then Inl IndexError else Inr (np_allclose (np_diff t) (np_diff t ! 0)))"
  by (auto simp add: uniform_spacing_def getitem_def)

lemma map_mult_zero: "map ((*) (0::real)) xs = replicate (length xs) 0"
  by (induction xs) simp_all

lemma half_min_float_pos: "0 < half_min_float"
  by (simp add: half_min_float_def)

lemma float_div_exact: "half_min_float < \<bar>a / b\<bar> \<Longrightarrow> float_div a b = a / b"
  by (simp add: float_div_def)

lemma float_div_eq_0_iff: "float_div a b = 0 \<longleftrightarrow> \<bar>a / b\<bar> \<le> half_min_float"
  using half_min_float_pos by (auto simp add: float_div_def)

text \<open>Which exceptions each block can raise.\<close>

lemma shift_aif_error: "shift_aif t ca Ta = Inl e \<Longrightarrow> e = ValueError"
  by (auto simp add: shift_aif_def interp1d_linear_def split: if_splits)

lemma np_convolve_error: "np_convolve a v = Inl e \<Longrightarrow> e = ValueError"
  by (auto simp add: np_convolve_def split: if_splits)

lemma getitem_error: "getitem xs i = Inl e \<Longrightarrow> e = IndexError"
  by (auto simp add: getitem_def split: if_splits)

lemma np_add_error: "np_add a b = Inl e \<Longrightarrow> e = ValueError"
  by (auto simp add: np_add_def split: if_splits)

lemma interp1d_quadratic_error: "interp1d_quadratic S x y = Inl e \<Longrightarrow> e = ValueError"
  by (auto simp add: interp1d_quadratic_def split: if_splits)

lemma exp_conv_error: "exp_conv E Tc t ca = Inl e \<Longrightarrow> e = ExpConvError"
  by (auto simp add: exp_conv_def split: option.splits)

lemma resample_grid_error: "resample_grid t = Inl e \<Longrightarrow> e = ValueError \<or> e = OverflowError"
  by (auto simp add: resample_grid_def bind_eq_Inl np_min_def int_of_quotient_def
      np_linspace_def Let_def split: if_splits)

lemma conv_resampled_error:
  "conv_resampled S t ca imp = Inl e \<Longrightarrow> e = ValueError \<or> e = OverflowError \<or> e = IndexError"
  by (auto simp add: conv_resampled_def Let_def bind_eq_Inl
      dest: resample_grid_error interp1d_quadratic_error np_convolve_error getitem_error)

lemma conv_resampled_ext_error:
  "conv_resampled_ext S vp t ca imp = Inl e \<Longrightarrow>
     e = ValueError \<or> e = OverflowError \<or> e = IndexError"
  by (auto simp add: conv_resampled_ext_def Let_def bind_eq_Inl
      dest: resample_grid_error interp1d_quadratic_error np_convolve_error getitem_error
        np_add_error)

section \<open>The arterial delay shift\<close>

text \<open>On a segment of a strictly increasing grid, the interpolation of the code is the
  line through the two samples of the segment.\<close>

lemma lin_interp_segment:
  "sorted_wrt (<) t \<Longrightarrow> length ca = length t \<Longrightarrow> Suc i < length t \<Longrightarrow>
   t ! i \<le> q \<Longrightarrow> q \<le> t ! Suc i \<Longrightarrow>
   lin_interp t ca q = ca ! i + (ca ! Suc i - ca ! i) * (q - t ! i) / (t ! Suc i - t ! i)"
proof (induction t ca q arbitrary: i rule: lin_interp.induct)
  case (1 x0 x1 xs y0 y1 ys q)
  show ?case
  proof (cases i)
    case 0
    with "1.prems" show ?thesis by (simp add: field_simps)
  next
    case (Suc j)
    have x01: "x0 < x1" using "1.prems"(1) by simp
    have j: "Suc j < length (x1 # xs)" using "1.prems"(3) Suc by simp
    have lo: "(x1 # xs) ! j \<le> q" and hi: "q \<le> (x1 # xs) ! Suc j"
      using "1.prems"(4,5) Suc by simp_all
    have sorted': "sorted_wrt (<) (x1 # xs)" using "1.prems"(1) by simp
    have ne: "xs \<noteq> []" using j by auto
    have x1_le: "x1 \<le> (x1 # xs) ! j"
      using sorted' j by (cases j) (auto simp add: less_imp_le)
    show ?thesis
    proof (cases "q \<le> x1")
      case True
      then have qx: "q = x1" and jx: "(x1 # xs) ! j = x1" using lo x1_le by auto
      have "j = 0"
      proof (rule ccontr)
        assume "j \<noteq> 0"
        then obtain k where k: "j = Suc k" by (cases j) auto
        have "xs ! k \<in> set xs" using j k by simp
        then have "x1 < xs ! k" using sorted' by auto
        then show False using jx k by simp
      qed
      then show ?thesis using True qx x01 Suc ne "1.prems"(2)
        by (cases ys) (auto simp add: field_simps)
    next
      case False
      have "lin_interp (x1 # xs) (y1 # ys) q =
          (y1 # ys) ! j + ((y1 # ys) ! Suc j - (y1 # ys) ! j) * (q - (x1 # xs) ! j)
            / ((x1 # xs) ! Suc j - (x1 # xs) ! j)"
        using "1.IH" [of j] False ne sorted' "1.prems"(2) j lo hi by simp
      then show ?thesis using False ne Suc by simp
    qed
  qed
qed simp_all


lemma segment_exists:
  "sorted_wrt (<) (t :: real list) \<Longrightarrow> 2 \<le> length t \<Longrightarrow> hd t \<le> q \<Longrightarrow> q \<le> last t \<Longrightarrow>
   \<exists>i. Suc i < length t \<and> t ! i \<le> q \<and> q \<le> t ! Suc i"
proof (induction t)
  case Nil
  then show ?case by simp
next
  case (Cons x0 t)
  then obtain x1 xs where t: "t = x1 # xs" by (cases t) auto
  show ?case
  proof (cases "q \<le> x1")
    case True
    with Cons.prems t have "Suc 0 < length (x0 # t) \<and> (x0 # t) ! 0 \<le> q \<and> q \<le> (x0 # t) ! Suc 0"
      by simp
    then show ?thesis by blast
  next
    case False
    with Cons.prems t have ne: "xs \<noteq> []" by auto
    have "sorted_wrt (<) t" and "hd t \<le> q" and "q \<le> last t"
      using Cons.prems t False by simp_all
    moreover have "2 \<le> length t"
      using t ne by (cases xs) simp_all
    ultimately
    have "\<exists>i. Suc i < length t \<and> t ! i \<le> q \<and> q \<le> t ! Suc i"
      by (intro Cons.IH)
    then obtain i where "Suc i < length t" "t ! i \<le> q" "q \<le> t ! Suc i" by blast
    then have "Suc (Suc i) < length (x0 # t) \<and> (x0 # t) ! Suc i \<le> q \<and> q \<le> (x0 # t) ! Suc (Suc i)"
      by simp
    then show ?thesis by blast
  qed
qed

lemma segment_in_bounds:
  assumes "sorted_wrt (<) (t :: real list)" and "Suc i < length t"
    and "t ! i \<le> q" and "q \<le> t ! Suc i"
  shows "hd t \<le> q \<and> q \<le> last t"
proof -
  have ne: "t \<noteq> []" using assms(2) by auto
  have "t ! 0 \<le> t ! i"
  proof (cases "i = 0")
    case True
    then show ?thesis by simp
  next
    case False
    then have "t ! 0 < t ! i"
      using assms(2) by (intro sorted_wrt_nth_less [OF assms(1)]) simp_all
    then show ?thesis by simp
  qed
  moreover have "t ! Suc i \<le> t ! (length t - 1)"
  proof (cases "Suc i = length t - 1")
    case True
    then show ?thesis by simp
  next
    case False
    then have "t ! Suc i < t ! (length t - 1)"
      using assms(2) by (intro sorted_wrt_nth_less [OF assms(1)]) simp_all
    then show ?thesis by simp
  qed
  ultimately show ?thesis
    using assms(3,4) ne by (simp add: hd_conv_nth last_conv_nth)
qed

lemma interp1d_linear_refines:
  assumes "sorted_wrt (<) t" and "length ca = length t" and "2 \<le> length t"
  shows "interp1d_linear t ca = Inr (linear_interpolant t ca)"
proof -
  have "(if q < hd t \<or> last t < q then 0 else lin_interp t ca q) = linear_interpolant t ca q" for q
  proof (cases "find (\<lambda>i. t ! i \<le> q \<and> q \<le> t ! Suc i) [0..<length t - 1]")
    case None
    then have no: "\<And>i. Suc i < length t \<Longrightarrow> \<not> (t ! i \<le> q \<and> q \<le> t ! Suc i)"
      by (auto simp add: find_None_iff)
    have "q < hd t \<or> last t < q"
      using segment_exists [OF assms(1,3), of q] no by force
    then show ?thesis using None by (simp add: linear_interpolant_def)
  next
    case (Some i)
    then have i: "Suc i < length t" "t ! i \<le> q" "q \<le> t ! Suc i"
      by (auto simp add: find_Some_iff)
    have "hd t \<le> q \<and> q \<le> last t" using segment_in_bounds [OF assms(1) i] .
    then show ?thesis
      using Some lin_interp_segment [OF assms(1,2) i] by (simp add: linear_interpolant_def)
  qed
  then show ?thesis using assms by (auto simp add: interp1d_linear_def)
qed

lemma shift_aif_refines:
  assumes "sorted_wrt (<) t" and "length ca = length t" and "2 \<le> length t" and "Ta \<noteq> 0"
  shows "shift_aif t ca Ta = Inr (delayed_aif t ca Ta)"
  using assms(4)
  by (simp add: shift_aif_def interp1d_linear_refines [OF assms(1,2,3)] delayed_aif_def
      map2_map_map)


lemma shift_aif_zero [simp]: "shift_aif t ca 0 = Inr ca"
  by (simp add: shift_aif_def)

lemma length_delayed_aif [simp]: "length (delayed_aif t ca Ta) = length t"
  by (simp add: delayed_aif_def)

lemma delayed_aif_zero: "i < length t \<Longrightarrow> t ! i \<le> Ta \<Longrightarrow> delayed_aif t ca Ta ! i = 0"
  by (simp add: delayed_aif_def)

section \<open>The degenerate case\<close>

text \<open>
  Claim C2.  When \<open>Ktrans \<le> 0\<close> or \<open>ve \<le> 0\<close>, \<open>tofts\<close> returns the all-zero series and
  \<open>extended_tofts\<close> returns \<open>vp * ca\<close> elementwise, for every \<open>Ta\<close> and every
  discretization method, and no exception is raised.  A time series has two points or
  more (section 3 of the specification); the grid check before the guard reads
  \<open>np.diff(t)[0]\<close>, which exists exactly then.
\<close>

theorem C2_degenerate_parameters:
  assumes "2 \<le> length t" and "Ktrans \<le> 0 \<or> ve \<le> 0"
  shows "snd (tofts E S t ca Ktrans ve Ta m) = Inr (replicate (length ca) 0)
       \<and> snd (extended_tofts E S t ca Ktrans ve vp Ta m) = Inr (map ((*) vp) ca)"
  using assms by (simp add: tofts_def extended_tofts_def uniform_spacing_eq map_mult_zero)

theorem C2_degenerate_parameters_witness:
  "snd (tofts (\<lambda>Tc t a. Some a) (\<lambda>x y q. 0) [0, 1, 3] [4, 5, 6] 0 (1 / 5) 30 ''conv'')
     = Inr [0, 0, 0]
   \<and> snd (extended_tofts (\<lambda>Tc t a. Some a) (\<lambda>x y q. 0) [0, 1, 3] [4, 5, 6] 0 (1 / 5) (1 / 2) 30 ''conv'')
     = Inr [2, 5 / 2, 3]"
  using C2_degenerate_parameters [of "[0, 1, 3]" 0 "1 / 5" "\<lambda>Tc t a. Some a" "\<lambda>x y q. 0"
      "[4, 5, 6]" 30 "''conv''" "1 / 2"]
  by (simp add: numeral_3_eq_3)

section \<open>Division by zero\<close>

text \<open>The division \<open>kep = Ktrans / ve\<close> never divides by zero, and \<open>Tc = ve / Ktrans\<close> does
  so only with the method \<open>exp\<close> and a positive \<open>Ktrans\<close> whose quotient by 60 underflows.\<close>

lemma zero_division_only_by_underflow:
  assumes "snd (tofts E S t ca Ktrans ve Ta m) = Inl (ZeroDivisionError s)
         \<or> snd (extended_tofts E S t ca Ktrans ve vp Ta m) = Inl (ZeroDivisionError s)"
  shows "s = Site_Tc \<and> m = ''exp'' \<and> 0 < Ktrans \<and> 0 < ve \<and> Ktrans / 60 \<le> half_min_float"
  using assms
  by (auto simp add: tofts_def extended_tofts_def uniform_spacing_eq Let_def bind_eq_Inl
      py_div_def float_div_eq_0_iff split: if_splits
      dest: shift_aif_error np_convolve_error getitem_error exp_conv_error np_add_error
        conv_resampled_error conv_resampled_ext_error)

text \<open>
  Claim C8 at \<open>Ktrans = 2 ^ (- 1074)\<close>, the least positive float, with \<open>ve = 0.2\<close>,
  \<open>t = [0, 1]\<close>, \<open>ca = [1, 1]\<close>, \<open>Ta = 0\<close>: the guard \<open>Ktrans <= 0 or ve <= 0\<close> lets the
  input through, \<open>Ktrans / 60\<close> is \<open>0.0\<close>, and with the method \<open>exp\<close> the division
  \<open>Tc = ve / Ktrans\<close> raises ZeroDivisionError in both models; with the method \<open>conv\<close>
  the same input returns the zero series.
\<close>

theorem C8_division_by_underflowed_Ktrans:
  "snd (tofts E S [0, 1] [1, 1] (1 / 2 ^ 1074) (1 / 5) 0 ''exp'') = Inl (ZeroDivisionError Site_Tc)
   \<and> snd (extended_tofts E S [0, 1] [1, 1] (1 / 2 ^ 1074) (1 / 5) (3 / 10) 0 ''exp'')
       = Inl (ZeroDivisionError Site_Tc)
   \<and> snd (tofts E S [0, 1] [1, 1] (1 / 2 ^ 1074) (1 / 5) 0 ''conv'') = Inr [0, 0]"
  by (simp add: tofts_def extended_tofts_def uniform_spacing_eq np_diff_def np_allclose_def
      float_div_def half_min_float_def py_div_def shift_aif_def np_convolve_def getitem_def
      Let_def upt_rec)

section \<open>The discretization method\<close>

text \<open>
  Claim C10.  For every discretization method \<open>m\<close> other than the exact string \<open>exp\<close>:
  \<^item> on every input the outcome of both models is the one of \<open>conv\<close> and does not depend
    on \<open>exp_conv\<close>, which is not called, so no exception is about the method;
  \<^item> for \<open>Ktrans > 0\<close> and \<open>ve > 0\<close>, on a grid that passes the first grid check with
    value \<open>u\<close>, the outcome is the one of the numerical-convolution path: with \<open>K\<close> the
    converted \<open>Ktrans\<close> and \<open>imp = K * exp(-(K / ve) * t)\<close>, the arterial series is
    shifted and, on a uniform grid, convolved with \<open>imp\<close>, truncated to \<open>len(t)\<close> samples
    and scaled by \<open>t[1]\<close> (plus \<open>vp * ca\<close> in the extended model); on a non-uniform grid
    the resampling branch runs.
\<close>

theorem C10_unknown_method_is_conv:
  assumes "m \<noteq> ''exp''"
  shows "tofts E S t ca Ktrans ve Ta m = tofts E S t ca Ktrans ve Ta ''conv''
       \<and> extended_tofts E S t ca Ktrans ve vp Ta m = extended_tofts E S t ca Ktrans ve vp Ta ''conv''
       \<and> tofts E S t ca Ktrans ve Ta m = tofts E' S t ca Ktrans ve Ta m
       \<and> extended_tofts E S t ca Ktrans ve vp Ta m = extended_tofts E' S t ca Ktrans ve vp Ta m
       \<and> (0 < Ktrans \<and> 0 < ve \<and> uniform_spacing t = Inr u \<longrightarrow>
            (let K = float_div Ktrans 60;
                 imp = map (\<lambda>x. K * exp (- 1 * (K / ve) * x)) t
             in tofts E S t ca Ktrans ve Ta m =
                  (\<not> u,
                   bind (shift_aif t ca Ta) (\<lambda>ca'.
                     if u then
                       bind (np_convolve ca' imp) (\<lambda>convolution.
                         Inr (map (\<lambda>c. c * t ! 1) (take (length t) convolution)))
                     else conv_resampled S t ca' imp))
              \<and> extended_tofts E S t ca Ktrans ve vp Ta m =
                  (\<not> u,
                   bind (shift_aif t ca Ta) (\<lambda>ca'.
                     if u then
                       bind (np_convolve ca' imp) (\<lambda>convolution.
                         np_add (map (\<lambda>c. c * t ! 1) (take (length t) convolution))
                           (map ((*) vp) ca'))
                     else conv_resampled_ext S vp t ca' imp))))"
proof -
  have general:
    "tofts E S t ca Ktrans ve Ta m = tofts E S t ca Ktrans ve Ta ''conv''"
    "extended_tofts E S t ca Ktrans ve vp Ta m = extended_tofts E S t ca Ktrans ve vp Ta ''conv''"
    "tofts E S t ca Ktrans ve Ta m = tofts E' S t ca Ktrans ve Ta m"
    "extended_tofts E S t ca Ktrans ve vp Ta m = extended_tofts E' S t ca Ktrans ve vp Ta m"
    using assms by (simp_all add: tofts_def extended_tofts_def Let_def uniform_spacing_eq)
  have path: "tofts E S t ca Ktrans ve Ta m =
        (\<not> u,
         bind (shift_aif t ca Ta) (\<lambda>ca'.
           if u then
             bind (np_convolve ca' (map (\<lambda>x. float_div Ktrans 60
                     * exp (- 1 * (float_div Ktrans 60 / ve) * x)) t)) (\<lambda>convolution.
               Inr (map (\<lambda>c. c * t ! 1) (take (length t) convolution)))
           else conv_resampled S t ca'
                  (map (\<lambda>x. float_div Ktrans 60 * exp (- 1 * (float_div Ktrans 60 / ve) * x)) t)))"
    and path_ext: "extended_tofts E S t ca Ktrans ve vp Ta m =
        (\<not> u,
         bind (shift_aif t ca Ta) (\<lambda>ca'.
           if u then
             bind (np_convolve ca' (map (\<lambda>x. float_div Ktrans 60
                     * exp (- 1 * (float_div Ktrans 60 / ve) * x)) t)) (\<lambda>convolution.
               np_add (map (\<lambda>c. c * t ! 1) (take (length t) convolution)) (map ((*) vp) ca'))
           else conv_resampled_ext S vp t ca'
                  (map (\<lambda>x. float_div Ktrans 60 * exp (- 1 * (float_div Ktrans 60 / ve) * x)) t)))"
    if "0 < Ktrans" and "0 < ve" and u: "uniform_spacing t = Inr u"
  proof -
    have len: "1 < length t"
      using u by (auto simp add: uniform_spacing_eq split: if_splits)
    show "tofts E S t ca Ktrans ve Ta m =
        (\<not> u,
         bind (shift_aif t ca Ta) (\<lambda>ca'.
           if u then
             bind (np_convolve ca' (map (\<lambda>x. float_div Ktrans 60
                     * exp (- 1 * (float_div Ktrans 60 / ve) * x)) t)) (\<lambda>convolution.
               Inr (map (\<lambda>c. c * t ! 1) (take (length t) convolution)))
           else conv_resampled S t ca'
                  (map (\<lambda>x. float_div Ktrans 60 * exp (- 1 * (float_div Ktrans 60 / ve) * x)) t)))"
      using assms that len by (cases u) (simp_all add: tofts_def Let_def py_div_def getitem_def)
    show "extended_tofts E S t ca Ktrans ve vp Ta m =
        (\<not> u,
         bind (shift_aif t ca Ta) (\<lambda>ca'.
           if u then
             bind (np_convolve ca' (map (\<lambda>x. float_div Ktrans 60
                     * exp (- 1 * (float_div Ktrans 60 / ve) * x)) t)) (\<lambda>convolution.
               np_add (map (\<lambda>c. c * t ! 1) (take (length t) convolution)) (map ((*) vp) ca'))
           else conv_resampled_ext S vp t ca'
                  (map (\<lambda>x. float_div Ktrans 60 * exp (- 1 * (float_div Ktrans 60 / ve) * x)) t)))"
      using assms that len
      by (cases u) (simp_all add: extended_tofts_def Let_def py_div_def getitem_def)
  qed
  show ?thesis
    unfolding Let_def using general path path_ext by blast
qed

theorem C10_unknown_method_is_conv_witness:
  "''exponential'' \<noteq> ''exp''
   \<and> tofts (\<lambda>Tc t a. Some a) (\<lambda>x y q. 0) [0, 1, 2] [1, 0, 0] 60 1 0 ''exponential''
       = (False, Inr [1, exp (- 1), exp (- 2)])
   \<and> extended_tofts (\<lambda>Tc t a. Some a) (\<lambda>x y q. 0) [0, 1, 2] [1, 0, 0] 60 1 (1 / 2) 0 ''exponential''
       = (False, Inr [3 / 2, exp (- 1), exp (- 2)])
   \<and> tofts (\<lambda>Tc t a. Some a) (\<lambda>x y q. 0) [0, 1, 2] [1, 0, 0] 60 1 0 ''exponential''
       = tofts (\<lambda>Tc t a. None) (\<lambda>x y q. 0) [0, 1, 2] [1, 0, 0] 60 1 0 ''exponential''"
proof -
  have m: "''exponential'' \<noteq> ''exp''" by simp
  have u: "uniform_spacing [0, 1, 2] = Inr True"
    by (simp add: uniform_spacing_eq np_diff_def np_allclose_def)
  have K: "float_div 60 60 = 1"
    by (simp add: float_div_def half_min_float_def)
  note th = C10_unknown_method_is_conv [OF m, of "\<lambda>Tc t a. Some a" "\<lambda>x y q. 0" "[0, 1, 2]"
      "[1, 0, 0]" 60 1 0 "1 / 2" "\<lambda>Tc t a. None" True]
  have indep:
    "tofts (\<lambda>Tc t a. Some a) (\<lambda>x y q. 0) [0, 1, 2] [1, 0, 0] 60 1 0 ''exponential''
       = tofts (\<lambda>Tc t a. None) (\<lambda>x y q. 0) [0, 1, 2] [1, 0, 0] 60 1 0 ''exponential''"
    using th by blast
  have path:
    "tofts (\<lambda>Tc t a. Some a) (\<lambda>x y q. 0) [0, 1, 2] [1, 0, 0] 60 1 0 ''exponential''
       = (False, Inr [1, exp (- 1), exp (- 2)])
     \<and> extended_tofts (\<lambda>Tc t a. Some a) (\<lambda>x y q. 0) [0, 1, 2] [1, 0, 0] 60 1 (1 / 2) 0 ''exponential''
       = (False, Inr [3 / 2, exp (- 1), exp (- 2)])"
    using th [THEN conjunct2, THEN conjunct2, THEN conjunct2, THEN conjunct2] u
    by (simp add: K Let_def np_convolve_def np_add_def upt_rec)
  show ?thesis
    using m indep path by blast
qed

section \<open>The arterial delay\<close>

text \<open>
  Claim C4.  For \<open>Ktrans > 0\<close> and \<open>ve > 0\<close>, on a strictly increasing grid with \<open>ca\<close>
  as long as \<open>t\<close>, let \<open>ca'\<close> be \<open>(t > Ta) * L(t - Ta)\<close> when \<open>Ta\<close> is not zero, with \<open>L\<close>
  the linear interpolant of \<open>ca\<close> over \<open>t\<close> that is 0 out of bounds, and \<open>ca\<close> itself
  when \<open>Ta = 0\<close>.  Then the shift block returns \<open>ca'\<close>, and each model computes with \<open>ca'\<close>
  in the place of \<open>ca\<close>, with either method: with \<open>exp\<close> it is the series handed to
  \<open>exp_conv\<close> (and the one \<open>vp\<close> multiplies); otherwise it is the series that is
  convolved with the impulse response on a uniform grid, or resampled on a non-uniform
  one.  \<open>ca'\<close> is as long as \<open>ca\<close>, and for \<open>Ta\<close> not zero it is zero at every index where
  \<open>t \<le> Ta\<close>.  Here \<open>K\<close> is the converted \<open>Ktrans\<close>, \<open>imp\<close> the impulse response on the
  original grid and \<open>u\<close> the value of the grid check.
\<close>

theorem C4_delay_shift:
  assumes "0 < Ktrans" and "0 < ve" and "sorted_wrt (<) t" and "2 \<le> length t"
    and "length ca = length t"
    and "ca' = (if Ta = 0 then ca else delayed_aif t ca Ta)"
    and "K = float_div Ktrans 60"
    and "imp = map (\<lambda>x. K * exp (- 1 * (K / ve) * x)) t"
    and "uniform_spacing t = Inr u"
  shows "shift_aif t ca Ta = Inr ca'
       \<and> tofts E S t ca Ktrans ve Ta ''exp'' =
           (\<not> u, bind (py_div Site_Tc ve K) (\<lambda>Tc. bind (exp_conv E Tc t ca') (\<lambda>ec.
                    Inr (map ((*) ve) ec))))
       \<and> extended_tofts E S t ca Ktrans ve vp Ta ''exp'' =
           (\<not> u, bind (py_div Site_Tc ve K) (\<lambda>Tc. bind (exp_conv E Tc t ca') (\<lambda>ec.
                    np_add (map ((*) vp) ca') (map ((*) ve) ec))))
       \<and> (m \<noteq> ''exp'' \<longrightarrow>
            tofts E S t ca Ktrans ve Ta m =
              (\<not> u,
               if u then
                 bind (np_convolve ca' imp) (\<lambda>convolution.
                   Inr (map (\<lambda>c. c * t ! 1) (take (length t) convolution)))
               else conv_resampled S t ca' imp)
          \<and> extended_tofts E S t ca Ktrans ve vp Ta m =
              (\<not> u,
               if u then
                 bind (np_convolve ca' imp) (\<lambda>convolution.
                   np_add (map (\<lambda>c. c * t ! 1) (take (length t) convolution)) (map ((*) vp) ca'))
               else conv_resampled_ext S vp t ca' imp))
       \<and> length ca' = length ca
       \<and> (Ta \<noteq> 0 \<longrightarrow> (\<forall>i<length t. t ! i \<le> Ta \<longrightarrow> ca' ! i = 0))"
proof -
  have shift: "shift_aif t ca Ta = Inr ca'"
    using assms(6) shift_aif_refines [OF assms(3,5,4)] by (cases "Ta = 0") simp_all
  have len: "1 < length t" using assms(4) by simp
  have exp_path: "tofts E S t ca Ktrans ve Ta ''exp'' =
      (\<not> u, bind (py_div Site_Tc ve K) (\<lambda>Tc. bind (exp_conv E Tc t ca') (\<lambda>ec.
               Inr (map ((*) ve) ec))))"
    using assms(1,2,7,9) by (simp add: tofts_def Let_def shift)
  have exp_path_ext: "extended_tofts E S t ca Ktrans ve vp Ta ''exp'' =
      (\<not> u, bind (py_div Site_Tc ve K) (\<lambda>Tc. bind (exp_conv E Tc t ca') (\<lambda>ec.
               np_add (map ((*) vp) ca') (map ((*) ve) ec))))"
    using assms(1,2,7,9) by (simp add: extended_tofts_def Let_def shift)
  have conv_path: "tofts E S t ca Ktrans ve Ta m =
      (\<not> u,
       if u then
         bind (np_convolve ca' imp) (\<lambda>convolution.
           Inr (map (\<lambda>c. c * t ! 1) (take (length t) convolution)))
       else conv_resampled S t ca' imp)" if "m \<noteq> ''exp''"
    using assms(1,2,7,8,9) that len
    by (cases u) (simp_all add: tofts_def Let_def shift py_div_def getitem_def)
  have conv_path_ext: "extended_tofts E S t ca Ktrans ve vp Ta m =
      (\<not> u,
       if u then
         bind (np_convolve ca' imp) (\<lambda>convolution.
           np_add (map (\<lambda>c. c * t ! 1) (take (length t) convolution)) (map ((*) vp) ca'))
       else conv_resampled_ext S vp t ca' imp)" if "m \<noteq> ''exp''"
    using assms(1,2,7,8,9) that len
    by (cases u) (simp_all add: extended_tofts_def Let_def shift py_div_def getitem_def)
  have length: "length ca' = length ca"
    using assms(5,6) by simp
  have zero: "\<forall>i<length t. t ! i \<le> Ta \<longrightarrow> ca' ! i = 0" if "Ta \<noteq> 0"
    using assms(6) that by (simp add: delayed_aif_zero)
  show ?thesis
    using shift exp_path exp_path_ext conv_path conv_path_ext length zero by blast
qed

theorem C4_delay_shift_witness:
  "shift_aif [0, 1, 2] [1, 2, 4] 1 = Inr [0, 0, 2]
   \<and> tofts (\<lambda>Tc t a. Some a) (\<lambda>x y q. 0) [0, 1, 2] [1, 2, 4] 60 1 1 ''exp''
       = (False, Inr [0, 0, 2])
   \<and> extended_tofts (\<lambda>Tc t a. Some a) (\<lambda>x y q. 0) [0, 1, 2] [1, 2, 4] 60 1 (1 / 2) 1 ''exp''
       = (False, Inr [0, 0, 3])
   \<and> tofts (\<lambda>Tc t a. Some a) (\<lambda>x y q. 0) [0, 1, 2] [1, 2, 4] 60 1 1 ''conv''
       = (False, Inr [0, 0, 2])
   \<and> extended_tofts (\<lambda>Tc t a. Some a) (\<lambda>x y q. 0) [0, 1, 2] [1, 2, 4] 60 1 (1 / 2) 1 ''conv''
       = (False, Inr [0, 0, 3])
   \<and> length [0, 0, 2 :: real] = length [1, 2, 4 :: real]
   \<and> [0, 0, 2 :: real] ! 1 = 0
   \<and> shift_aif [0, 1, 2] [1, 2, 4] 0 = Inr [1, 2, 4]
   \<and> tofts (\<lambda>Tc t a. Some a) (\<lambda>x y q. 0) [0, 1, 2] [1, 2, 4] 60 1 0 ''exp''
       = (False, Inr [1, 2, 4])
   \<and> extended_tofts (\<lambda>Tc t a. Some a) (\<lambda>x y q. 0) [0, 1, 2] [1, 2, 4] 60 1 (1 / 2) 0 ''exp''
       = (False, Inr [3 / 2, 3, 6])"
proof -
  have h: "(0::real) < 60" "(0::real) < 1" "sorted_wrt (<) [0, 1, 2 :: real]"
    "2 \<le> length [0, 1, 2 :: real]" "length [1, 2, 4 :: real] = length [0, 1, 2 :: real]"
    by simp_all
  have delay:
    "[0, 0, 2 :: real] = (if (1::real) = 0 then [1, 2, 4] else delayed_aif [0, 1, 2] [1, 2, 4] 1)"
    by (simp add: delayed_aif_def linear_interpolant_def upt_rec)
  have no_delay:
    "[1, 2, 4 :: real] = (if (0::real) = 0 then [1, 2, 4] else delayed_aif [0, 1, 2] [1, 2, 4] 0)"
    by simp
  have k: "(1::real) = float_div 60 60"
    "[1, exp (- 1), exp (- 2)] = map (\<lambda>x. 1 * exp (- 1 * (1 / 1) * x)) [0, 1, 2 :: real]"
    "uniform_spacing [0, 1, 2] = Inr True"
    by (simp_all add: float_div_def half_min_float_def uniform_spacing_eq np_diff_def
        np_allclose_def)
  note with_delay = C4_delay_shift [OF h delay k, of "\<lambda>Tc t a. Some a" "\<lambda>x y q. 0" "1 / 2"
      "''conv''"]
  note without_delay = C4_delay_shift [OF h no_delay k, of "\<lambda>Tc t a. Some a" "\<lambda>x y q. 0" "1 / 2"
      "''conv''"]
  have a: "shift_aif [0, 1, 2] [1, 2, 4] 1 = Inr [0, 0, 2]
      \<and> tofts (\<lambda>Tc t a. Some a) (\<lambda>x y q. 0) [0, 1, 2] [1, 2, 4] 60 1 1 ''exp''
          = (False, Inr [0, 0, 2])
      \<and> extended_tofts (\<lambda>Tc t a. Some a) (\<lambda>x y q. 0) [0, 1, 2] [1, 2, 4] 60 1 (1 / 2) 1 ''exp''
          = (False, Inr [0, 0, 3])
      \<and> tofts (\<lambda>Tc t a. Some a) (\<lambda>x y q. 0) [0, 1, 2] [1, 2, 4] 60 1 1 ''conv''
          = (False, Inr [0, 0, 2])
      \<and> extended_tofts (\<lambda>Tc t a. Some a) (\<lambda>x y q. 0) [0, 1, 2] [1, 2, 4] 60 1 (1 / 2) 1 ''conv''
          = (False, Inr [0, 0, 3])"
    using with_delay
    by (simp add: py_div_def exp_conv_def np_add_def np_convolve_def upt_rec)
  have b: "shift_aif [0, 1, 2] [1, 2, 4] 0 = Inr [1, 2, 4]
      \<and> tofts (\<lambda>Tc t a. Some a) (\<lambda>x y q. 0) [0, 1, 2] [1, 2, 4] 60 1 0 ''exp''
          = (False, Inr [1, 2, 4])
      \<and> extended_tofts (\<lambda>Tc t a. Some a) (\<lambda>x y q. 0) [0, 1, 2] [1, 2, 4] 60 1 (1 / 2) 0 ''exp''
          = (False, Inr [3 / 2, 3, 6])"
    using without_delay
    by (simp add: py_div_def exp_conv_def np_add_def)
  show ?thesis
    using a b by simp
qed

section \<open>The exponential-convolution path\<close>



section \<open>The extended model with no plasma volume\<close>

lemma bind_cong: "(\<And>x. m = Inr x \<Longrightarrow> f x = g x) \<Longrightarrow> bind m f = bind m g"
  by (cases m) simp_all

lemma if_branches_cong:
  "(c \<Longrightarrow> a = a') \<Longrightarrow> (\<not> c \<Longrightarrow> b = b') \<Longrightarrow> (if c then a else b) = (if c then a' else b')"
  by simp

lemma map2_add_zeros_right: "length b = length a \<Longrightarrow> map2 (+) a (map ((*) (0::real)) b) = a"
  by (induction a b rule: list_induct2') simp_all

lemma map2_add_zeros_left: "length a = length b \<Longrightarrow> map2 (+) (map ((*) (0::real)) a) b = b"
  by (induction a b rule: list_induct2') simp_all

lemma np_add_zeros_right: "length b = length a \<Longrightarrow> np_add a (map ((*) 0) b) = Inr a"
  by (simp add: np_add_def map2_add_zeros_right)

lemma np_add_zeros_right_comp:
  "length g = length a \<Longrightarrow> np_add a (map ((*) 0 \<circ> f) g) = Inr a"
  using np_add_zeros_right [of "map f g" a] by simp

lemma np_add_zeros_left: "length a = length b \<Longrightarrow> np_add (map ((*) 0) a) b = Inr b"
  by (simp add: np_add_def map2_add_zeros_left)

lemma shift_aif_length:
  "shift_aif t ca Ta = Inr ca' \<Longrightarrow> length ca = length t \<Longrightarrow> length ca' = length t"
  by (auto simp add: shift_aif_def bind_eq_Inr split: if_splits)

lemma np_convolve_length:
  "np_convolve a v = Inr c \<Longrightarrow> length c = length a + length v - 1 \<and> a \<noteq> [] \<and> v \<noteq> []"
  by (auto simp add: np_convolve_def split: if_splits)

lemma exp_conv_length:
  "\<forall>Tc c ec. E Tc t c = Some ec \<longrightarrow> length ec = length t \<Longrightarrow>
   exp_conv E Tc t c = Inr ec \<Longrightarrow> length ec = length t"
  by (auto simp add: exp_conv_def split: option.splits)

lemma conv_resampled_ext_zero: "conv_resampled_ext S 0 t ca imp = conv_resampled S t ca imp"
proof -
  have leaf: "bind (np_add (map (\<lambda>c. c * t1) (take (length g) convolution)) (map ((*) 0 \<circ> f) g)) F
      = F (map (\<lambda>c. c * t1) (take (length g) convolution))"
    if "np_convolve (map f g) (map h g) = Inr convolution" for f h g convolution t1
      and F :: "real list \<Rightarrow> error + real list"
  proof -
    have "length g \<le> length convolution"
      using that by (auto dest!: np_convolve_length)
    then show ?thesis by (simp add: np_add_zeros_right_comp)
  qed
  show ?thesis
    unfolding conv_resampled_ext_def conv_resampled_def Let_def
    by (intro bind_cong) (simp add: leaf)
qed

text \<open>
  Claim C7.  With \<open>vp = 0\<close> the extended model gives the outcome of the base model (the
  same warning, the same series or the same exception), for every \<open>Ta\<close>, every method
  and every grid, when \<open>ca\<close> is as long as \<open>t\<close> and \<open>exp_conv\<close> returns one value for each
  time point.  The statement holds for degenerate parameters as well.
\<close>

theorem C7_extended_with_zero_plasma:
  assumes "length ca = length t"
    and "\<forall>Tc c ec. E Tc t c = Some ec \<longrightarrow> length ec = length t"
  shows "extended_tofts E S t ca Ktrans ve 0 Ta m = tofts E S t ca Ktrans ve Ta m"
proof (cases "length t < 2")
  case True
  then show ?thesis by (simp add: tofts_def extended_tofts_def uniform_spacing_eq)
next
  case False
  note len_shift = shift_aif_length [OF _ assms(1)]
  note len_exp = exp_conv_length [of E t, OF assms(2)]
  show ?thesis
    using False
    apply (simp add: tofts_def extended_tofts_def uniform_spacing_eq Let_def
        conv_resampled_ext_zero)
    apply (intro impI conjI bind_cong if_branches_cong)
      apply (auto simp add: np_add_zeros_left np_add_zeros_right conv_resampled_ext_zero
        dest!: len_shift len_exp np_convolve_length)
    done
qed

theorem C7_extended_with_zero_plasma_witness:
  "extended_tofts (\<lambda>Tc t a. Some t) (\<lambda>x y q. 0) [0, 1, 3] [1, 2, 3] (3 / 5) (1 / 5) 0 30 ''conv''
     = tofts (\<lambda>Tc t a. Some t) (\<lambda>x y q. 0) [0, 1, 3] [1, 2, 3] (3 / 5) (1 / 5) 30 ''conv''
   \<and> extended_tofts (\<lambda>Tc t a. Some t) (\<lambda>x y q. 0) [0, 1, 2] [1, 2, 3] (3 / 5) (1 / 5) 0 0 ''exp''
     = tofts (\<lambda>Tc t a. Some t) (\<lambda>x y q. 0) [0, 1, 2] [1, 2, 3] (3 / 5) (1 / 5) 0 ''exp''"
  using C7_extended_with_zero_plasma [of "[1, 2, 3]" "[0, 1, 3]" "\<lambda>Tc t a. Some t" "\<lambda>x y q. 0"
      "3 / 5" "1 / 5" 30 "''conv''"]
    C7_extended_with_zero_plasma [of "[1, 2, 3]" "[0, 1, 2]" "\<lambda>Tc t a. Some t" "\<lambda>x y q. 0"
      "3 / 5" "1 / 5" 0 "''exp''"]
  by simp

section \<open>The resampled grid\<close>

lemma np_linspace_nth:
  assumes "2 \<le> num"
  shows "\<exists>g. np_linspace a b num = Inr g \<and> length g = nat num
           \<and> (\<forall>i<nat num. g ! i = real i * ((b - a) / real (nat num - 1)) + a)"
proof -
  define n where "n = nat num"
  define step where "step = (b - a) / real (n - 1)"
  define g where "g = (map (\<lambda>v. v + a) (map (\<lambda>i. real i * step) [0..<n]))[n - 1 := b]"
  have n: "2 \<le> n" using assms by (simp add: n_def)
  have lin: "np_linspace a b num = Inr g"
    using assms n by (simp add: np_linspace_def Let_def g_def step_def n_def)
  have len: "length g = n" by (simp add: g_def)
  have "g ! i = real i * step + a" if "i < n" for i
  proof (cases "i = n - 1")
    case True
    have "real (n - 1) * step = b - a" using n by (simp add: step_def)
    then show ?thesis using True that by (simp add: g_def)
  next
    case False
    then show ?thesis using that by (simp add: g_def)
  qed
  then show ?thesis using lin len by (auto simp add: n_def step_def)
qed

lemma sum_list_np_diff: "t \<noteq> [] \<Longrightarrow> sum_list (np_diff t) = last t - hd t"
proof (induction t)
  case Nil
  then show ?case by simp
next
  case (Cons x t)
  then show ?case by (cases t) (simp_all add: np_diff_def)
qed

lemma np_diff_nth: "Suc i < length t \<Longrightarrow> np_diff t ! i = t ! Suc i - t ! i"
  by (simp add: np_diff_def nth_tl)

lemma np_diff_positive:
  assumes "sorted_wrt (<) (t :: real list)" and "d \<in> set (np_diff t)"
  shows "0 < d"
proof -
  obtain i where i: "i < length (np_diff t)" and d: "d = np_diff t ! i"
    using assms(2) by (auto simp add: in_set_conv_nth)
  have si: "Suc i < length t" using i by simp
  have "t ! i < t ! Suc i"
    using si by (intro sorted_wrt_nth_less [OF assms(1)]) simp_all
  then show ?thesis using d np_diff_nth [OF si] by simp
qed

lemma sum_list_above_min:
  "\<forall>x\<in>set ds. (m::real) \<le> x \<Longrightarrow> real (length ds) * m \<le> sum_list ds"
  by (induction ds) (auto simp add: algebra_simps)

lemma sum_list_strictly_above_min:
  "\<forall>x\<in>set ds. (m::real) \<le> x \<Longrightarrow> \<exists>x\<in>set ds. m < x \<Longrightarrow> real (length ds) * m < sum_list ds"
proof (induction ds)
  case Nil
  then show ?case by simp
next
  case (Cons d ds)
  have rest: "real (length ds) * m \<le> sum_list ds"
    using Cons.prems(1) by (intro sum_list_above_min) simp
  show ?case
  proof (cases "m < d")
    case True
    then show ?thesis using rest by (simp add: algebra_simps)
  next
    case False
    then have "\<exists>x\<in>set ds. m < x" using Cons.prems(2) by auto
    then have "real (length ds) * m < sum_list ds" using Cons.IH Cons.prems(1) by simp
    moreover have "m \<le> d" using Cons.prems(1) by simp
    ultimately show ?thesis by (simp add: algebra_simps)
  qed
qed


lemma nonuniform_grid:
  assumes "uniform_spacing t = Inr False"
  shows "2 \<le> length (np_diff t) \<and> (\<exists>x\<in>set (np_diff t). x \<noteq> np_diff t ! 0)"
proof -
  have len: "2 \<le> length t" and nc: "\<not> np_allclose (np_diff t) (np_diff t ! 0)"
    using assms by (auto simp add: uniform_spacing_eq split: if_splits)
  from nc obtain x where x: "x \<in> set (np_diff t)" "x \<noteq> np_diff t ! 0"
    by (auto simp add: np_allclose_def list_all_iff)
  have "2 \<le> length (np_diff t)"
  proof (rule ccontr)
    assume "\<not> 2 \<le> length (np_diff t)"
    then have "length (np_diff t) = 1" using len by simp
    then obtain d where "np_diff t = [d]" by (cases "np_diff t") auto
    then show False using x by simp
  qed
  then show ?thesis using x by blast
qed

text \<open>On every strictly increasing grid that fails the uniformity check, the resampled
  grid is uniform, runs from \<open>t[0]\<close> to \<open>t[-1]\<close> and has \<open>floor((t[-1] - t[0]) / dt)\<close>
  points, at least two; its step is strictly larger than the minimum spacing \<open>dt\<close>.\<close>

lemma resample_grid_step_exceeds_min_spacing:
  assumes "sorted_wrt (<) t" and "uniform_spacing t = Inr False"
  shows "\<exists>dt g. np_min (np_diff t) = Inr dt \<and> resample_grid t = Inr g
           \<and> length g = nat \<lfloor>(last t - hd t) / dt\<rfloor> \<and> 2 \<le> length g
           \<and> hd g = hd t \<and> last g = last t
           \<and> (\<forall>i. Suc i < length g \<longrightarrow> g ! Suc i - g ! i = (last t - hd t) / real (length g - 1))
           \<and> dt < (last t - hd t) / real (length g - 1)"
proof -
  define ds where "ds = np_diff t"
  define dt where "dt = Min (set ds)"
  define R where "R = last t - hd t"
  define num where "num = \<lfloor>R / dt\<rfloor>"
  have len2: "2 \<le> length ds" and ex: "\<exists>x\<in>set ds. x \<noteq> ds ! 0"
    using nonuniform_grid [OF assms(2)] by (simp_all add: ds_def)
  have ne: "ds \<noteq> []" using len2 by auto
  have tne: "t \<noteq> []" using len2 by (auto simp add: ds_def)
  have min: "np_min (np_diff t) = Inr dt" using ne by (simp add: np_min_def dt_def ds_def)
  have dt_in: "dt \<in> set ds" unfolding dt_def using ne by (intro Min_in) simp_all
  have dt_pos: "0 < dt" using np_diff_positive [OF assms(1)] dt_in by (simp add: ds_def)
  have dt_le: "\<forall>x\<in>set ds. dt \<le> x" by (simp add: dt_def)
  have "\<exists>x\<in>set ds. dt < x"
  proof -
    from ex obtain x where x: "x \<in> set ds" "x \<noteq> ds ! 0" by blast
    have d0: "ds ! 0 \<in> set ds" using ne by simp
    show ?thesis
    proof (cases "dt < x")
      case True
      then show ?thesis using x by blast
    next
      case False
      then have "x = dt" using dt_le x by force
      then have "dt < ds ! 0" using dt_le d0 x(2) by force
      then show ?thesis using d0 by blast
    qed
  qed
  then have "real (length ds) * dt < sum_list ds"
    using dt_le by (intro sum_list_strictly_above_min)
  then have "real (length ds) * dt < R"
    using sum_list_np_diff [OF tne] by (simp add: ds_def R_def)
  moreover have "2 * dt \<le> real (length ds) * dt"
    using len2 dt_pos by simp
  ultimately have R2: "2 * dt < R" by simp
  then have q2: "2 < R / dt" using dt_pos by (simp add: field_simps)
  then have num2: "2 \<le> num" by (simp add: num_def le_floor_iff)
  have quot: "int_of_quotient R dt = Inr num"
    using dt_pos q2 by (simp add: int_of_quotient_def py_int_def num_def)
  obtain g where g: "np_linspace (hd t) (last t) num = Inr g" "length g = nat num"
    and nth: "\<forall>i<nat num. g ! i = real i * (R / real (nat num - 1)) + hd t"
    using np_linspace_nth [OF num2, of "hd t" "last t"] by (auto simp add: R_def)
  have grid: "resample_grid t = Inr g"
    using min quot g(1) by (simp add: resample_grid_def R_def)
  have n2: "2 \<le> nat num" using num2 by simp
  have gne: "g \<noteq> []" using g(2) n2 by auto
  have hd_g: "hd g = hd t"
    using nth n2 gne by (simp add: hd_conv_nth)
  have "real (nat num - 1) * (R / real (nat num - 1)) = R" using n2 by simp
  then have last_g: "last g = last t"
    using nth n2 gne g(2) by (simp add: last_conv_nth R_def)
  have step: "g ! Suc i - g ! i = R / real (length g - 1)" if "Suc i < length g" for i
  proof -
    have "g ! Suc i = real (Suc i) * (R / real (nat num - 1)) + hd t"
      and "g ! i = real i * (R / real (nat num - 1)) + hd t"
      using nth that g(2) by simp_all
    then show ?thesis using g(2) by (simp add: algebra_simps add_divide_distrib)
  qed
  have "real_of_int num \<le> R / dt" by (simp add: num_def)
  then have "real (nat num) \<le> R / dt" using num2 by simp
  then have "real (nat num - 1) < R / dt" using n2 by simp
  then have "real (nat num - 1) * dt < R" using dt_pos by (simp add: field_simps)
  moreover have "0 < real (nat num - 1)" using n2 by simp
  ultimately have "dt < R / real (nat num - 1)" by (simp add: field_simps)
  then have finer: "dt < R / real (length g - 1)" using g(2) by simp
  show ?thesis
    using min grid g(2) n2 hd_g last_g step finer
    by (intro exI [of _ dt] exI [of _ g]) (simp add: R_def num_def)
qed

text \<open>
  Claim C5 at the grid \<open>[0, 1, 3]\<close>: it fails the uniformity check, its minimum spacing
  is 1, and the code builds \<open>np.linspace(0, 3, int(3 / 1)) = [0, 1.5, 3]\<close>.  The grid is
  uniform, runs from \<open>t[0]\<close> to \<open>t[-1]\<close> and has \<open>floor((t[-1] - t[0]) / dt)\<close> points, but
  its step is 1.5, not the minimum spacing.  One more point gives \<open>[0, 1, 2, 3]\<close>, the
  grid at the minimum spacing.
\<close>

theorem C5_resampled_grid_coarser_than_min_spacing:
  "uniform_spacing [0, 1, 3] = Inr False
   \<and> np_min (np_diff [0, 1, 3]) = Inr 1
   \<and> resample_grid [0, 1, 3] = Inr [0, 3 / 2, 3]
   \<and> length [0, 3 / 2, 3 :: real] = nat \<lfloor>(3 - 0) / (1 :: real)\<rfloor>
   \<and> [0, 3 / 2, 3 :: real] ! 1 - [0, 3 / 2, 3] ! 0 \<noteq> 1
   \<and> np_linspace 0 3 (\<lfloor>(3 - 0) / (1 :: real)\<rfloor> + 1) = Inr [0, 1, 2, 3]"
  by (simp add: uniform_spacing_eq resample_grid_def np_min_def np_diff_def np_allclose_def
      int_of_quotient_def py_int_def np_linspace_def Let_def upt_rec)

section \<open>The uniform-grid convolution\<close>

text \<open>What the code returns on a grid that passes the uniformity check: the truncated
  convolution scaled by \<open>t[1]\<close>.  On a grid that starts at 0 this is the step.\<close>

lemma tofts_conv_uniform:
  assumes "0 < Ktrans" and "0 < ve" and "m \<noteq> ''exp''" and "uniform_spacing t = Inr True"
    and "shift_aif t ca Ta = Inr ca'" and "K = float_div Ktrans 60"
  shows "snd (tofts E S t ca Ktrans ve Ta m)
           = bind (np_convolve ca' (map (\<lambda>x. K * exp (- (K / ve) * x)) t))
               (\<lambda>convolution. Inr (map (\<lambda>c. c * t ! 1) (take (length t) convolution)))"
    and "snd (extended_tofts E S t ca Ktrans ve vp Ta m)
           = bind (np_convolve ca' (map (\<lambda>x. K * exp (- (K / ve) * x)) t))
               (\<lambda>convolution. np_add (map (\<lambda>c. c * t ! 1) (take (length t) convolution))
                                  (map ((*) vp) ca'))"
proof -
  have len: "1 < length t"
    using assms(4) by (auto simp add: uniform_spacing_eq split: if_splits)
  show "snd (tofts E S t ca Ktrans ve Ta m)
           = bind (np_convolve ca' (map (\<lambda>x. K * exp (- (K / ve) * x)) t))
               (\<lambda>convolution. Inr (map (\<lambda>c. c * t ! 1) (take (length t) convolution)))"
    using assms len by (simp add: tofts_def Let_def py_div_def getitem_def)
  show "snd (extended_tofts E S t ca Ktrans ve vp Ta m)
           = bind (np_convolve ca' (map (\<lambda>x. K * exp (- (K / ve) * x)) t))
               (\<lambda>convolution. np_add (map (\<lambda>c. c * t ! 1) (take (length t) convolution))
                                  (map ((*) vp) ca'))"
    using assms len by (simp add: extended_tofts_def Let_def py_div_def getitem_def)
qed

lemma tofts_conv_uniform_from_zero:
  assumes "0 < Ktrans" and "0 < ve" and "m \<noteq> ''exp''" and "uniform_spacing t = Inr True"
    and "shift_aif t ca Ta = Inr ca'" and "hd t = 0" and "half_min_float < Ktrans / 60"
  shows "snd (tofts E S t ca Ktrans ve Ta m) = conv_scaled_by_step t ca' Ktrans ve"
proof -
  have "t \<noteq> []" using assms(4) by (auto simp add: uniform_spacing_eq split: if_splits)
  then have "t ! 0 = 0" using assms(6) by (simp add: hd_conv_nth)
  moreover have "Ktrans / 60 = float_div Ktrans 60"
    using assms(1,7) by (intro float_div_exact [symmetric]) simp
  ultimately show ?thesis
    using tofts_conv_uniform(1) [OF assms(1-5), of "Ktrans / 60" E S]
    by (simp add: conv_scaled_by_step_def)
qed

text \<open>
  Claim C1 at the grid \<open>[1, 2, 3]\<close> (uniform, step 1), with \<open>ca = [1, 0, 0]\<close>,
  \<open>Ktrans = 60\<close>, \<open>ve = 1\<close>, \<open>Ta = 0\<close>: the code scales the truncated convolution by
  \<open>t[1] = 2\<close>, the claim by the step \<open>t[1] - t[0] = 1\<close>.  Neither \<open>exp_conv\<close> nor the
  spline is called on this path.
\<close>

theorem C1_scaled_by_second_time_point:
  "uniform_spacing [1, 2, 3] = Inr True
   \<and> snd (tofts E S [1, 2, 3] [1, 0, 0] 60 1 0 ''conv'')
       = Inr [2 * exp (- 1), 2 * exp (- 2), 2 * exp (- 3)]
   \<and> conv_scaled_by_step [1, 2, 3] [1, 0, 0] 60 1 = Inr [exp (- 1), exp (- 2), exp (- 3)]
   \<and> snd (tofts E S [1, 2, 3] [1, 0, 0] 60 1 0 ''conv'')
       \<noteq> conv_scaled_by_step [1, 2, 3] [1, 0, 0] 60 1"
  by (simp add: tofts_def uniform_spacing_eq np_diff_def np_allclose_def py_div_def
      float_div_def half_min_float_def shift_aif_def np_convolve_def getitem_def Let_def
      conv_scaled_by_step_def upt_rec)

section \<open>Coarse non-uniform grids\<close>

text \<open>Where a model returns a series, it has one value for each time point.\<close>

lemma np_add_length: "np_add a b = Inr c \<Longrightarrow> length a = length b \<Longrightarrow> length c = length a"
  by (auto simp add: np_add_def)

lemma tofts_result_length:
  assumes "length ca = length t"
    and "\<forall>Tc c ec. E Tc t c = Some ec \<longrightarrow> length ec = length t"
    and "snd (tofts E S t ca Ktrans ve Ta m) = Inr ct"
  shows "length ct = length t"
proof -
  note len_shift = shift_aif_length [OF _ assms(1)]
  note len_exp = exp_conv_length [of E t, OF assms(2)]
  show ?thesis
    using assms(1,3)
    by (auto simp add: tofts_def conv_resampled_def uniform_spacing_eq Let_def bind_eq_Inr
        split: if_splits dest!: len_shift len_exp np_convolve_length)
qed

lemma extended_tofts_result_length:
  assumes "length ca = length t"
    and "\<forall>Tc c ec. E Tc t c = Some ec \<longrightarrow> length ec = length t"
    and "snd (extended_tofts E S t ca Ktrans ve vp Ta m) = Inr ct"
  shows "length ct = length t"
proof -
  note len_shift = shift_aif_length [OF _ assms(1)]
  note len_exp = exp_conv_length [of E t, OF assms(2)]
  show ?thesis
    using assms(1,3)
    by (auto simp add: extended_tofts_def conv_resampled_ext_def uniform_spacing_eq Let_def
        bind_eq_Inr split: if_splits dest!: len_shift len_exp np_convolve_length np_add_length)
qed

lemma np_convolve_returns:
  "a \<noteq> [] \<Longrightarrow> v \<noteq> [] \<Longrightarrow> \<exists>c. np_convolve a v = Inr c \<and> length c = length a + length v - 1"
  by (simp add: np_convolve_def)

lemma uniform_grid_returns:
  assumes "0 < Ktrans" and "0 < ve" and "m \<noteq> ''exp''" and "uniform_spacing t = Inr True"
    and "length ca = length t"
  shows "\<exists>ct. tofts E S t ca Ktrans ve Ta m = (False, Inr ct) \<and> length ct = length t"
    and "\<exists>ct. extended_tofts E S t ca Ktrans ve vp Ta m = (False, Inr ct) \<and> length ct = length t"
proof -
  have len: "1 < length t"
    using assms(4) by (auto simp add: uniform_spacing_eq split: if_splits)
  have "t \<noteq> []" using len by auto
  then have "\<exists>ca'. shift_aif t ca Ta = Inr ca'"
    using assms(5) by (simp add: shift_aif_def interp1d_linear_def)
  then obtain ca' where shift: "shift_aif t ca Ta = Inr ca'" by blast
  have len': "length ca' = length t" using shift_aif_length [OF shift assms(5)] .
  define K where "K = float_div Ktrans 60"
  have "ca' \<noteq> []" and "map (\<lambda>x. K * exp (- (K / ve) * x)) t \<noteq> []"
    using len len' by auto
  from np_convolve_returns [OF this]
  obtain c where conv: "np_convolve ca' (map (\<lambda>x. K * exp (- (K / ve) * x)) t) = Inr c"
    and lc: "length c = length t + length t - 1"
    using len' by auto
  show "\<exists>ct. tofts E S t ca Ktrans ve Ta m = (False, Inr ct) \<and> length ct = length t"
    using tofts_conv_uniform(1) [OF assms(1-4) shift K_def, of E S] conv lc len assms(4)
    by (auto simp add: tofts_def prod_eq_iff)
  show "\<exists>ct. extended_tofts E S t ca Ktrans ve vp Ta m = (False, Inr ct) \<and> length ct = length t"
    using tofts_conv_uniform(2) [OF assms(1-4) shift K_def, of E S vp] conv lc len len' assms(4)
    by (auto simp add: extended_tofts_def prod_eq_iff np_add_def)
qed

text \<open>
  Claim C6 at the grid \<open>[0, 1, 2.5]\<close> with \<open>ca = [1, 1, 1]\<close>, \<open>Ktrans = 0.6\<close>,
  \<open>ve = 0.2\<close>, the default \<open>Ta = 30\<close> and the default method: the resampled grid has
  \<open>int(2.5 / 1) = 2\<close> points, the quadratic \<open>interp1d\<close> that restores the original grid
  needs three, and both models raise ValueError, whatever the spline; there is no
  result series.
\<close>

theorem C6_no_result_on_coarse_grid:
  "snd (tofts E S [0, 1, 5 / 2] [1, 1, 1] (3 / 5) (1 / 5) 30 ''conv'')
     = Inl ValueError
   \<and> snd (extended_tofts E S [0, 1, 5 / 2] [1, 1, 1] (3 / 5) (1 / 5) (3 / 10) 30 ''conv'')
     = Inl ValueError"
  by (simp add: tofts_def extended_tofts_def uniform_spacing_eq np_diff_def np_allclose_def
      py_div_def float_div_def half_min_float_def shift_aif_def interp1d_linear_def
      conv_resampled_def conv_resampled_ext_def resample_grid_def np_min_def
      int_of_quotient_def py_int_def np_linspace_def interp1d_quadratic_def np_convolve_def
      np_add_def getitem_def Let_def upt_rec)

text \<open>The warning is emitted exactly when the grid fails the uniformity check.\<close>

lemma warning_iff_nonuniform:
  "2 \<le> length t \<Longrightarrow>
     fst (tofts E S t ca Ktrans ve Ta m) = (\<not> np_allclose (np_diff t) (np_diff t ! 0))
     \<and> fst (extended_tofts E S t ca Ktrans ve vp Ta m) = (\<not> np_allclose (np_diff t) (np_diff t ! 0))"
  by (simp add: tofts_def extended_tofts_def uniform_spacing_eq)

text \<open>
  Claim C9 at the grid \<open>[0, 2, 5]\<close> with \<open>ca = [1, 2, 3]\<close>, \<open>Ktrans = 0.6\<close>, \<open>ve = 0.2\<close>,
  \<open>Ta = 0\<close> and the method \<open>conv\<close>: both models emit the warning and then raise
  ValueError.
\<close>

theorem C9_warning_then_error:
  "tofts E S [0, 2, 5] [1, 2, 3] (3 / 5) (1 / 5) 0 ''conv''
     = (True, Inl ValueError)
   \<and> extended_tofts E S [0, 2, 5] [1, 2, 3] (3 / 5) (1 / 5) (3 / 10) 0 ''conv''
     = (True, Inl ValueError)"
  by (simp add: tofts_def extended_tofts_def uniform_spacing_eq np_diff_def np_allclose_def
      py_div_def float_div_def half_min_float_def shift_aif_def interp1d_linear_def
      conv_resampled_def conv_resampled_ext_def resample_grid_def np_min_def
      int_of_quotient_def py_int_def np_linspace_def interp1d_quadratic_def np_convolve_def
      np_add_def getitem_def Let_def upt_rec)

end
